theory Spec2Isabelle
  imports Complex_Main "HOL-Library.AList" "HOL-Library.Multiset"
begin

section \<open>Data model\<close>

text \<open>
  The layout engine of \<^verbatim>\<open>generate_circuit\<close> places components around a chip that sits
  at the origin. Python floats are modelled as \<^typ>\<open>real\<close>: sums, products and comparisons
  are exact, \<^verbatim>\<open>math.cos\<close>, \<^verbatim>\<open>math.sin\<close> and \<^verbatim>\<open>math.sqrt\<close> are the real functions, and there is
  no rounding, infinity or NaN. The box checks are given a second time in double
  arithmetic, for the one property that rounding decides. Python ints (pin numbers) are \<^typ>\<open>int\<close>, the loop counter
  of \<^verbatim>\<open>range(50)\<close> is a \<^typ>\<open>nat\<close>.

  A bounding box is a Python dict. The collision predicate reads the four corner keys only;
  \<^verbatim>\<open>_create_bbox_from_position\<close> and \<^verbatim>\<open>get_chip_info\<close> add \<^verbatim>\<open>width\<close> and \<^verbatim>\<open>height\<close>, the
  margin-expanded chip box of \<^verbatim>\<open>_check_collision_with_chip\<close> does not. The record extension
  keeps that difference.
\<close>

record bbox =
  x_min :: real
  x_max :: real
  y_min :: real
  y_max :: real

record sized_bbox = bbox +
  bwidth :: real
  bheight :: real

text \<open>
  An entry of \<^verbatim>\<open>component_info\<close> (built by \<^verbatim>\<open>get_component_info\<close>); the schemdraw element
  it also carries is opaque to the placement and left out.
\<close>

record component =
  position :: "real \<times> real"
  comp_type :: string
  label :: string
  width :: real
  height :: real
  connected_pins :: "int list"

text \<open>
  An entry of \<^verbatim>\<open>adjusted_positions\<close>: the fields of the component with the adjusted
  position, and the bounding box at that position.
\<close>

record placed = component +
  bbox :: sized_bbox

text \<open>\<^verbatim>\<open>get_chip_info\<close>: the chip sits at the origin, its box is centred there.\<close>

record chip_info =
  model :: string
  chip_position :: "real \<times> real"
  chip_bbox :: sized_bbox

definition get_chip_info :: "string \<Rightarrow> real \<Rightarrow> real \<Rightarrow> chip_info" where
  "get_chip_info m chip_width chip_height =
     \<lparr>model = m, chip_position = (0, 0),
      chip_bbox = \<lparr>x_min = - chip_width / 2, x_max = chip_width / 2,
                   y_min = - chip_height / 2, y_max = chip_height / 2,
                   bwidth = chip_width, bheight = chip_height\<rparr>\<rparr>"

text \<open>
  Python dicts keep insertion order, so \<^verbatim>\<open>component_info\<close> and \<^verbatim>\<open>adjusted_positions\<close> are
  association lists from component id to entry; storing under a key that is present
  replaces the entry in place, storing under a new key appends (\<^const>\<open>AList.update\<close>).
\<close>

type_synonym component_info = "(string \<times> component) list"
type_synonym adjusted_positions = "(string \<times> placed) list"

section \<open>Collision detector\<close>

subsection \<open>Bounding boxes\<close>

definition check_bbox_collision :: "'a bbox_scheme \<Rightarrow> 'b bbox_scheme \<Rightarrow> real \<Rightarrow> bool" where
  "check_bbox_collision bbox1 bbox2 margin =
     (\<not> (x_max bbox1 + margin < x_min bbox2 \<or>
         x_max bbox2 + margin < x_min bbox1 \<or>
         y_max bbox1 + margin < y_min bbox2 \<or>
         y_max bbox2 + margin < y_min bbox1))"

definition check_collision_with_chip :: "chip_info \<Rightarrow> 'a bbox_scheme \<Rightarrow> real \<Rightarrow> bool" where
  "check_collision_with_chip chip b margin =
     (let cb = chip_bbox chip;
          chip_bbox_with_margin =
            \<lparr>x_min = x_min cb - margin, x_max = x_max cb + margin,
             y_min = y_min cb - margin, y_max = y_max cb + margin\<rparr>
      in check_bbox_collision b chip_bbox_with_margin 0)"

definition create_bbox_from_position :: "real \<Rightarrow> real \<Rightarrow> real \<Rightarrow> real \<Rightarrow> sized_bbox" where
  "create_bbox_from_position x y w h =
     \<lparr>x_min = x - w / 2, x_max = x + w / 2,
      y_min = y - h / 2, y_max = y + h / 2,
      bwidth = w, bheight = h\<rparr>"

subsection \<open>Ideal position\<close>

text \<open>
  The pin table is the fixed table of the 555 timer written in the method itself; a pin
  number that is not a key of it gets the default of \<^verbatim>\<open>dict.get\<close>.
\<close>

definition pin_configs :: "(int \<times> string \<times> real) list" where
  "pin_configs =
     [(1, ''bot'', 0), (2, ''left'', 0.5), (3, ''right'', 0), (4, ''top'', - 0.5),
      (5, ''right'', 1), (6, ''left'', - 0.5), (7, ''left'', 1), (8, ''top'', 0.5),
      (9, ''right'', - 1)]"

definition get_pin_position_on_chip :: "int \<Rightarrow> string \<times> real" where
  "get_pin_position_on_chip pin_number =
     (case map_of pin_configs pin_number of Some v \<Rightarrow> v | None \<Rightarrow> (''right'', 0))"

text \<open>The body of the loop over the connected pins: the point a pin asks for.\<close>

definition pin_target :: "int \<Rightarrow> real \<times> real" where
  "pin_target pin =
     (let (side, offset) = get_pin_position_on_chip pin
      in if side = ''left'' then (- 3, offset * 1.5)
         else if side = ''right'' then (3, offset * 1.5)
         else if side = ''top'' then (offset * 1.5, 2.5)
         else if side = ''bot'' then (offset * 1.5, - 2.5)
         else (2, 2))"

text \<open>
  \<^verbatim>\<open>_calculate_optimal_position(component_id)\<close> reads \<^verbatim>\<open>self.component_info[component_id]\<close>;
  every caller passes the id of an entry of \<^verbatim>\<open>component_info\<close>, and the model passes the
  entry. The running totals \<^verbatim>\<open>total_x, total_y\<close> are the state of the fold.
\<close>

definition calculate_optimal_position :: "'a component_scheme \<Rightarrow> real \<times> real" where
  "calculate_optimal_position c =
     (let pins = connected_pins c
      in if pins = [] then (2, 2)
         else
           let (total_x, total_y) =
                 fold (\<lambda>pin (tx, ty). let (x, y) = pin_target pin in (tx + x, ty + y))
                   pins (0, 0)
           in (total_x / real (length pins), total_y / real (length pins)))"

subsection \<open>Search for a free position\<close>

text \<open>
  The inner loop over \<^verbatim>\<open>adjusted_positions.items()\<close>: an entry stored under the component's
  own id is skipped, the first colliding box ends the loop.
\<close>

fun collides_with_placed :: "string \<Rightarrow> sized_bbox \<Rightarrow> adjusted_positions \<Rightarrow> bool" where
  "collides_with_placed component_id test_bbox [] = False"
| "collides_with_placed component_id test_bbox ((placed_comp_id, placed_info) # rest) =
     (if placed_comp_id = component_id then collides_with_placed component_id test_bbox rest
      else
        let placed_bbox = create_bbox_from_position
              (fst (position placed_info)) (snd (position placed_info))
              (width placed_info) (height placed_info)
        in if check_bbox_collision test_bbox placed_bbox 1 then True
           else collides_with_placed component_id test_bbox rest)"

text \<open>The value of \<^verbatim>\<open>has_collision\<close> for the candidate \<open>(x, y)\<close> of one attempt.\<close>

definition has_collision ::
  "chip_info \<Rightarrow> adjusted_positions \<Rightarrow> string \<Rightarrow> 'a component_scheme \<Rightarrow> real \<Rightarrow> real \<Rightarrow> bool" where
  "has_collision chip adj component_id c x y =
     (let test_bbox = create_bbox_from_position x y (width c) (height c)
      in if check_collision_with_chip chip test_bbox 2 then True
         else collides_with_placed component_id test_bbox adj)"

definition radians :: "real \<Rightarrow> real" where
  "radians d = d * pi / 180"

text \<open>
  The tail of the loop body, run after attempt number \<open>attempt\<close> collided:
  \<^verbatim>\<open>original_x, original_y\<close> are assigned when attempt 0 collides, from the same pure call
  that gave the first candidate, and are read only afterwards.
\<close>

definition next_candidate :: "'a component_scheme \<Rightarrow> nat \<Rightarrow> real \<times> real" where
  "next_candidate c attempt =
     (let search_radius = 1;
          (original_x, original_y) = calculate_optimal_position c;
          (angle, radius) =
             (if attempt < 8 then (real (attempt * 45), search_radius)
              else (real ((attempt * 30) mod 360),
                    search_radius * (1 + (real attempt - 8) * 0.5)));
          x_offset = radius * cos (radians angle);
          y_offset = radius * sin (radians angle)
      in (original_x + x_offset, original_y + y_offset))"

text \<open>
  \<^verbatim>\<open>for attempt in range(max_attempts)\<close>, by recursion on the attempts still to run, with the
  current candidate; \<open>None\<close> when the loop ends without a \<^verbatim>\<open>return\<close>.
\<close>

fun search_attempts ::
  "chip_info \<Rightarrow> adjusted_positions \<Rightarrow> string \<Rightarrow> 'a component_scheme \<Rightarrow> nat list \<Rightarrow>
   real \<times> real \<Rightarrow> (real \<times> real) option" where
  "search_attempts chip adj component_id c [] xy = None"
| "search_attempts chip adj component_id c (attempt # rest) xy =
     (if \<not> has_collision chip adj component_id c (fst xy) (snd xy) then Some xy
      else search_attempts chip adj component_id c rest (next_candidate c attempt))"

text \<open>The placement away from the chip that follows the loop.\<close>

definition far_placement :: "'a component_scheme \<Rightarrow> real \<times> real" where
  "far_placement c =
     (case connected_pins c of
        [] \<Rightarrow> (10, 6)
      | pin # _ \<Rightarrow>
          let (side, offset) = get_pin_position_on_chip pin
          in if side = ''left'' then (- 10, offset * 3)
             else if side = ''right'' then (10, offset * 3)
             else if side = ''top'' then (offset * 3, 8)
             else if side = ''bot'' then (offset * 3, - 8)
             else (10, 6))"

definition max_attempts :: nat where
  "max_attempts = 50"

definition adjust_position_to_avoid_collision ::
  "chip_info \<Rightarrow> adjusted_positions \<Rightarrow> string \<Rightarrow> 'a component_scheme \<Rightarrow> real \<times> real" where
  "adjust_position_to_avoid_collision chip adj component_id c =
     (case search_attempts chip adj component_id c [0..<max_attempts]
             (calculate_optimal_position c) of
        Some xy \<Rightarrow> xy
      | None \<Rightarrow> far_placement c)"

subsection \<open>Resolving all components\<close>

text \<open>
  \<^verbatim>\<open>sorted(items, key=..., reverse=True)\<close> is a stable sort: items with equal keys keep their
  order, also with \<^verbatim>\<open>reverse=True\<close>. It is the stable insertion sort on the negated key.
\<close>

definition sorted_components :: "component_info \<Rightarrow> component_info" where
  "sorted_components component_info =
     sort_key (\<lambda>x. - int (length (connected_pins (snd x)))) component_info"

definition place_component ::
  "chip_info \<Rightarrow> adjusted_positions \<Rightarrow> string \<times> component \<Rightarrow> adjusted_positions" where
  "place_component chip adj item =
     (let (comp_id, c) = item;
          (adjusted_x, adjusted_y) = adjust_position_to_avoid_collision chip adj comp_id c
      in AList.update comp_id
           \<lparr>position = (adjusted_x, adjusted_y), comp_type = comp_type c, label = label c,
            width = width c, height = height c, connected_pins = connected_pins c,
            bbox = create_bbox_from_position adjusted_x adjusted_y (width c) (height c)\<rparr>
           adj)"

text \<open>
  \<^verbatim>\<open>adjusted_positions\<close> is empty when the detector is created and the method does not clear
  it, so the state before the call is a parameter.
\<close>

definition detect_and_resolve_collisions ::
  "chip_info \<Rightarrow> component_info \<Rightarrow> adjusted_positions \<Rightarrow> adjusted_positions" where
  "detect_and_resolve_collisions chip component_info adj =
     fold (\<lambda>item adj'. place_component chip adj' item) (sorted_components component_info) adj"

section \<open>Position recorder\<close>

text \<open>
  \<^verbatim>\<open>_check_if_optimal_position(comp_id, position_info)\<close>: \<open>c\<close> is the entry of
  \<^verbatim>\<open>component_info\<close> under \<^verbatim>\<open>comp_id\<close>, \<open>position_info\<close> the entry of the layout.
\<close>

definition check_if_optimal_position :: "'a component_scheme \<Rightarrow> 'b component_scheme \<Rightarrow> bool" where
  "check_if_optimal_position c position_info =
     (let optimal_pos = calculate_optimal_position c;
          actual_pos = position position_info;
          distance = sqrt ((fst optimal_pos - fst actual_pos)\<^sup>2 +
                           (snd optimal_pos - snd actual_pos)\<^sup>2)
      in distance < 0.5)"

text \<open>
  Python's \<^verbatim>\<open>min\<close> and \<^verbatim>\<open>max\<close> of a list. They raise on an empty list; the lists below end
  with the two coordinates of the chip, so the models have no equation for \<open>[]\<close>.
\<close>

fun py_min :: "real list \<Rightarrow> real" where
  "py_min (x # xs) = fold min xs x"

fun py_max :: "real list \<Rightarrow> real" where
  "py_max (x # xs) = fold max xs x"

text \<open>The \<^verbatim>\<open>overall_bounding_box\<close> of \<^verbatim>\<open>_calculate_layout_statistics\<close>.\<close>

definition overall_bounding_box :: "chip_info \<Rightarrow> adjusted_positions \<Rightarrow> bbox" where
  "overall_bounding_box chip component_positions =
     (let cb = chip_bbox chip;
          all_x_coords = map (\<lambda>pos. x_min (bbox (snd pos))) component_positions @
                         map (\<lambda>pos. x_max (bbox (snd pos))) component_positions @
                         [x_min cb, x_max cb];
          all_y_coords = map (\<lambda>pos. y_min (bbox (snd pos))) component_positions @
                         map (\<lambda>pos. y_max (bbox (snd pos))) component_positions @
                         [y_min cb, y_max cb]
      in \<lparr>x_min = py_min all_x_coords, x_max = py_max all_x_coords,
          y_min = py_min all_y_coords, y_max = py_max all_y_coords\<rparr>)"

text \<open>Returns \<^verbatim>\<open>(canvas_width, canvas_height, canvas_origin_x, canvas_origin_y)\<close>.\<close>

definition calculate_canvas_size ::
  "chip_info \<Rightarrow> adjusted_positions \<Rightarrow> real \<times> real \<times> real \<times> real" where
  "calculate_canvas_size chip component_positions =
     (let overall_bbox = overall_bounding_box chip component_positions;
          margin = 2;
          canvas_width = x_max overall_bbox - x_min overall_bbox + 2 * margin;
          canvas_height = y_max overall_bbox - y_min overall_bbox + 2 * margin;
          canvas_origin_x = x_min overall_bbox - margin;
          canvas_origin_y = y_max overall_bbox + margin
      in (canvas_width, canvas_height, canvas_origin_x, canvas_origin_y))"

definition convert_to_yolo_format ::
  "real \<Rightarrow> real \<Rightarrow> real \<Rightarrow> real \<Rightarrow> real \<Rightarrow> real \<Rightarrow> real \<Rightarrow> real \<Rightarrow> real \<times> real \<times> real \<times> real" where
  "convert_to_yolo_format x y w h canvas_width canvas_height canvas_origin_x canvas_origin_y =
     (let canvas_x = x - canvas_origin_x;
          canvas_y = canvas_origin_y - y;
          x_center_norm = canvas_x / canvas_width;
          y_center_norm = canvas_y / canvas_height;
          width_norm = w / canvas_width;
          height_norm = h / canvas_height;
          x_center_norm = max 0 (min 1 x_center_norm);
          y_center_norm = max 0 (min 1 y_center_norm);
          width_norm = max 0 (min 1 width_norm);
          height_norm = max 0 (min 1 height_norm)
      in (x_center_norm, y_center_norm, width_norm, height_norm))"

section \<open>The box checks in double arithmetic\<close>

text \<open>
  Whether two ways of adding a margin decide the same relation depends on rounding, which
  the real numbers do not have. The functions of the box checks are therefore given a
  second time with the arithmetic of Python floats: every sum, difference and quotient of
  the source is the exact result rounded to the nearest double, ties to the even
  significand (53 bits, subnormal numbers included). Negation and
  comparison are exact. Results beyond the largest double, infinities, NaN and the sign of
  zero are outside this model; the values used below are far from them.
\<close>

definition round_half_even :: "real \<Rightarrow> int" where
  "round_half_even x =
     (let f = \<lfloor>x\<rfloor>; r = x - of_int f
      in if r < 1 / 2 then f else if 1 / 2 < r then f + 1 else if even f then f else f + 1)"

definition double_ulp :: "real \<Rightarrow> real" where
  "double_ulp x = 2 powr (of_int (max \<lfloor>log 2 \<bar>x\<bar>\<rfloor> (- 1022)) - 52)"

definition round_double :: "real \<Rightarrow> real" where
  "round_double x =
     (if x = 0 then 0 else of_int (round_half_even (x / double_ulp x)) * double_ulp x)"

text \<open>The functions of the collision detector, operation by operation.\<close>

definition get_chip_info_fp :: "string \<Rightarrow> real \<Rightarrow> real \<Rightarrow> chip_info" where
  "get_chip_info_fp m chip_width chip_height =
     \<lparr>model = m, chip_position = (0, 0),
      chip_bbox = \<lparr>x_min = round_double (- chip_width / 2),
                   x_max = round_double (chip_width / 2),
                   y_min = round_double (- chip_height / 2),
                   y_max = round_double (chip_height / 2),
                   bwidth = chip_width, bheight = chip_height\<rparr>\<rparr>"

definition check_bbox_collision_fp :: "'a bbox_scheme \<Rightarrow> 'b bbox_scheme \<Rightarrow> real \<Rightarrow> bool" where
  "check_bbox_collision_fp bbox1 bbox2 margin =
     (\<not> (round_double (x_max bbox1 + margin) < x_min bbox2 \<or>
         round_double (x_max bbox2 + margin) < x_min bbox1 \<or>
         round_double (y_max bbox1 + margin) < y_min bbox2 \<or>
         round_double (y_max bbox2 + margin) < y_min bbox1))"

definition check_collision_with_chip_fp :: "chip_info \<Rightarrow> 'a bbox_scheme \<Rightarrow> real \<Rightarrow> bool" where
  "check_collision_with_chip_fp chip b margin =
     (let cb = chip_bbox chip;
          chip_bbox_with_margin =
            \<lparr>x_min = round_double (x_min cb - margin), x_max = round_double (x_max cb + margin),
             y_min = round_double (y_min cb - margin), y_max = round_double (y_max cb + margin)\<rparr>
      in check_bbox_collision_fp b chip_bbox_with_margin 0)"

definition create_bbox_from_position_fp :: "real \<Rightarrow> real \<Rightarrow> real \<Rightarrow> real \<Rightarrow> sized_bbox" where
  "create_bbox_from_position_fp x y w h =
     \<lparr>x_min = round_double (x - round_double (w / 2)),
      x_max = round_double (x + round_double (w / 2)),
      y_min = round_double (y - round_double (h / 2)),
      y_max = round_double (y + round_double (h / 2)),
      bwidth = w, bheight = h\<rparr>"

fun collides_with_placed_fp :: "string \<Rightarrow> sized_bbox \<Rightarrow> adjusted_positions \<Rightarrow> bool" where
  "collides_with_placed_fp component_id test_bbox [] = False"
| "collides_with_placed_fp component_id test_bbox ((placed_comp_id, placed_info) # rest) =
     (if placed_comp_id = component_id then collides_with_placed_fp component_id test_bbox rest
      else
        let placed_bbox = create_bbox_from_position_fp
              (fst (position placed_info)) (snd (position placed_info))
              (width placed_info) (height placed_info)
        in if check_bbox_collision_fp test_bbox placed_bbox 1 then True
           else collides_with_placed_fp component_id test_bbox rest)"

definition has_collision_fp ::
  "chip_info \<Rightarrow> adjusted_positions \<Rightarrow> string \<Rightarrow> 'a component_scheme \<Rightarrow> real \<Rightarrow> real \<Rightarrow> bool" where
  "has_collision_fp chip adj component_id c x y =
     (let test_bbox = create_bbox_from_position_fp x y (width c) (height c)
      in if check_collision_with_chip_fp chip test_bbox 2 then True
         else collides_with_placed_fp component_id test_bbox adj)"

section \<open>Notions of the specification\<close>

subsection \<open>Anchors of the four sides\<close>

text \<open>
  The specification speaks of four sides and of one anchor per side, near the chip for the
  ideal position and far from it for the last resort. The code names the sides by the
  strings of its pin table, with \<^verbatim>\<open>'bot'\<close> for the bottom side.
\<close>

datatype side = Left | Right | Top | Bottom

definition side_of_name :: "string \<Rightarrow> side option" where
  "side_of_name s =
     (if s = ''left'' then Some Left
      else if s = ''right'' then Some Right
      else if s = ''top'' then Some Top
      else if s = ''bot'' then Some Bottom
      else None)"


definition spec_far_anchor :: "side \<Rightarrow> real \<Rightarrow> real \<times> real" where
  "spec_far_anchor s offset =
     (case s of
        Left \<Rightarrow> (- 10, offset * 3)
      | Right \<Rightarrow> (10, offset * 3)
      | Top \<Rightarrow> (offset * 3, 8)
      | Bottom \<Rightarrow> (offset * 3, - 8))"


subsection \<open>Candidates of the search\<close>

text \<open>
  The offset the specification gives for attempt index \<open>attempt\<close>, and the \<open>k\<close>-th
  candidate: the ideal position first, then the ideal position plus the offset of the
  attempt that just failed.
\<close>

definition spec_offset :: "nat \<Rightarrow> real \<times> real" where
  "spec_offset attempt =
     (if attempt \<le> 7
      then (1 * cos (radians (real attempt * 45)), 1 * sin (radians (real attempt * 45)))
      else (1 * (1 + 0.5 * (real attempt - 8)) * cos (radians (real ((attempt * 30) mod 360))),
            1 * (1 + 0.5 * (real attempt - 8)) * sin (radians (real ((attempt * 30) mod 360)))))"

definition spec_candidate :: "real \<times> real \<Rightarrow> nat \<Rightarrow> real \<times> real" where
  "spec_candidate ideal k =
     (if k = 0 then ideal
      else (fst ideal + fst (spec_offset (k - 1)), snd ideal + snd (spec_offset (k - 1))))"

subsection \<open>The layout invariant\<close>

text \<open>
  No placed component overlaps the chip with margin 2, and no two placed components overlap
  with margin 1.
\<close>

definition no_overlap_invariant :: "chip_info \<Rightarrow> adjusted_positions \<Rightarrow> bool" where
  "no_overlap_invariant chip layout =
     ((\<forall>p \<in> set layout. \<not> check_collision_with_chip chip (bbox (snd p)) 2) \<and>
      (\<forall>p \<in> set layout. \<forall>q \<in> set layout. fst p \<noteq> fst q \<longrightarrow>
          \<not> check_bbox_collision (bbox (snd p)) (bbox (snd q)) 1))"

text \<open>
  The entry at index \<open>j\<close> of a layout is clear of the chip and of every entry before it.
\<close>

definition clear_of_chip_and_earlier :: "chip_info \<Rightarrow> adjusted_positions \<Rightarrow> nat \<Rightarrow> bool" where
  "clear_of_chip_and_earlier chip layout j =
     (\<not> check_collision_with_chip chip (bbox (snd (layout ! j))) 2 \<and>
      (\<forall>i < j. \<not> check_bbox_collision (bbox (snd (layout ! j))) (bbox (snd (layout ! i))) 1 \<and>
               \<not> check_bbox_collision (bbox (snd (layout ! i))) (bbox (snd (layout ! j))) 1))"

text \<open>
  The ids of the components whose search ends without a free candidate, along a run of the
  resolver over \<open>items\<close> from the state \<open>adj\<close>.
\<close>

fun fallback_ids :: "chip_info \<Rightarrow> adjusted_positions \<Rightarrow> component_info \<Rightarrow> string list" where
  "fallback_ids chip adj [] = []"
| "fallback_ids chip adj (item # rest) =
     (if search_attempts chip adj (fst item) (snd item) [0..<max_attempts]
           (calculate_optimal_position (snd item)) = None
      then [fst item] else []) @
     fallback_ids chip (place_component chip adj item) rest"

definition placed_by_fallback :: "chip_info \<Rightarrow> component_info \<Rightarrow> string set" where
  "placed_by_fallback chip component_info =
     set (fallback_ids chip [] (sorted_components component_info))"

text \<open>The geometry the specification calls invalid: a width or height that is not positive.\<close>

definition invalid_geometry :: "chip_info \<Rightarrow> component_info \<Rightarrow> bool" where
  "invalid_geometry chip component_info =
     (bwidth (chip_bbox chip) \<le> 0 \<or> bheight (chip_bbox chip) \<le> 0 \<or>
      (\<exists>p \<in> set component_info. width (snd p) \<le> 0 \<or> height (snd p) \<le> 0))"

text \<open>
  The sums and differences with the margin 2 that the two forms of the chip check compute
  for a box \<open>t\<close> are free of rounding, and the two upper edges of \<open>t\<close> are doubles.
\<close>

definition margin_sums_exact :: "chip_info \<Rightarrow> 'a bbox_scheme \<Rightarrow> bool" where
  "margin_sums_exact chip t =
     (round_double (x_min (chip_bbox chip) - 2) = x_min (chip_bbox chip) - 2 \<and>
      round_double (y_min (chip_bbox chip) - 2) = y_min (chip_bbox chip) - 2 \<and>
      round_double (x_max (chip_bbox chip) + 2) = x_max (chip_bbox chip) + 2 \<and>
      round_double (y_max (chip_bbox chip) + 2) = y_max (chip_bbox chip) + 2 \<and>
      round_double (x_max t + 2) = x_max t + 2 \<and>
      round_double (y_max t + 2) = y_max t + 2 \<and>
      round_double (x_max t) = x_max t \<and>
      round_double (y_max t) = y_max t)"

subsection \<open>Canvas and distance\<close>

text \<open>The corner coordinates of all boxes of a layout, the chip's included.\<close>

definition layout_boxes :: "chip_info \<Rightarrow> adjusted_positions \<Rightarrow> sized_bbox set" where
  "layout_boxes chip layout = insert (chip_bbox chip) ((\<lambda>p. bbox (snd p)) ` set layout)"

definition corner_xs :: "chip_info \<Rightarrow> adjusted_positions \<Rightarrow> real set" where
  "corner_xs chip layout = x_min ` layout_boxes chip layout \<union> x_max ` layout_boxes chip layout"

definition corner_ys :: "chip_info \<Rightarrow> adjusted_positions \<Rightarrow> real set" where
  "corner_ys chip layout = y_min ` layout_boxes chip layout \<union> y_max ` layout_boxes chip layout"

definition clamp01 :: "real \<Rightarrow> real" where
  "clamp01 v = (if v < 0 then 0 else if 1 < v then 1 else v)"

text \<open>A point of the plane as a complex number, whose metric is the Euclidean distance.\<close>

definition to_complex :: "real \<times> real \<Rightarrow> complex" where
  "to_complex p = Complex (fst p) (snd p)"

subsection \<open>Auxiliary notions of the proofs\<close>

text \<open>The box the resolver rebuilds from a stored entry, and the entry it stores.\<close>

definition entry_bbox :: "'a component_scheme \<Rightarrow> sized_bbox" where
  "entry_bbox e =
     create_bbox_from_position (fst (position e)) (snd (position e)) (width e) (height e)"

definition new_entry :: "chip_info \<Rightarrow> adjusted_positions \<Rightarrow> string \<times> component \<Rightarrow> placed" where
  "new_entry chip adj item =
     (let xy = adjust_position_to_avoid_collision chip adj (fst item) (snd item)
      in \<lparr>position = xy, comp_type = comp_type (snd item), label = label (snd item),
          width = width (snd item), height = height (snd item),
          connected_pins = connected_pins (snd item),
          bbox = create_bbox_from_position (fst xy) (snd xy)
                   (width (snd item)) (height (snd item))\<rparr>)"

definition placed_free :: "chip_info \<Rightarrow> adjusted_positions \<Rightarrow> nat \<Rightarrow> bool" where
  "placed_free chip layout j =
     (bbox (snd (layout ! j)) = entry_bbox (snd (layout ! j)) \<and>
      \<not> check_collision_with_chip chip (entry_bbox (snd (layout ! j))) 2 \<and>
      (\<forall>i < j. \<not> check_bbox_collision (entry_bbox (snd (layout ! j)))
                   (entry_bbox (snd (layout ! i))) 1))"

section \<open>Example inputs\<close>

text \<open>Chips with an explicit \<^verbatim>\<open>layout_size\<close>, and components with explicit sizes.\<close>

definition small_chip :: chip_info where
  "small_chip = get_chip_info ''NE555'' 1 1"

definition mid_chip :: chip_info where
  "mid_chip = get_chip_info ''NE555'' 3 3"

definition wide_chip :: chip_info where
  "wide_chip = get_chip_info ''NE555'' 4 4"

definition resistor_r1 :: component where
  "resistor_r1 = \<lparr>position = (- 3, 0.75), comp_type = ''resistor'', label = ''R1'',
     width = 0.5, height = 0.5, connected_pins = [2]\<rparr>"

definition led_d1 :: component where
  "led_d1 = \<lparr>position = (3, 0), comp_type = ''LED'', label = ''D1'',
     width = 0.5, height = 0.5, connected_pins = [3]\<rparr>"

definition capacitor_c1 :: component where
  "capacitor_c1 = \<lparr>position = (0, 0.375), comp_type = ''capacitor'', label = ''C1'',
     width = 2, height = 1.5, connected_pins = [2, 3]\<rparr>"

definition flat_resistor :: component where
  "flat_resistor = \<lparr>position = (- 3, 0.75), comp_type = ''resistor'', label = ''R0'',
     width = 0, height = - 1, connected_pins = [2]\<rparr>"

definition huge_ground :: component where
  "huge_ground = \<lparr>position = (2, 2), comp_type = ''ground'', label = [],
     width = 100, height = 100, connected_pins = []\<rparr>"

definition huge_resistor :: component where
  "huge_resistor = \<lparr>position = (- 3, 0.75), comp_type = ''resistor'', label = ''R9'',
     width = 100, height = 100, connected_pins = [2]\<rparr>"

definition two_components :: component_info where
  "two_components = [(''R1'', resistor_r1), (''D1'', led_d1)]"

definition three_components :: component_info where
  "three_components = [(''R1'', resistor_r1), (''C1'', capacitor_c1), (''D1'', led_d1)]"

definition two_layout :: adjusted_positions where
  "two_layout =
     [(''R1'', \<lparr>position = (- 3, 3 / 4), comp_type = ''resistor'', label = ''R1'',
         width = 1 / 2, height = 1 / 2, connected_pins = [2],
         bbox = \<lparr>x_min = - 13 / 4, x_max = - 11 / 4, y_min = 1 / 2, y_max = 1,
                 bwidth = 1 / 2, bheight = 1 / 2\<rparr>\<rparr>),
      (''D1'', \<lparr>position = (3, 0), comp_type = ''LED'', label = ''D1'',
         width = 1 / 2, height = 1 / 2, connected_pins = [3],
         bbox = \<lparr>x_min = 11 / 4, x_max = 13 / 4, y_min = - 1 / 4, y_max = 1 / 4,
                 bwidth = 1 / 2, bheight = 1 / 2\<rparr>\<rparr>)]"

definition flat_layout :: adjusted_positions where
  "flat_layout =
     [(''R0'', \<lparr>position = (- 3, 3 / 4), comp_type = ''resistor'', label = ''R0'',
         width = 0, height = - 1, connected_pins = [2],
         bbox = \<lparr>x_min = - 3, x_max = - 3, y_min = 5 / 4, y_max = 1 / 4,
                 bwidth = 0, bheight = - 1\<rparr>\<rparr>)]"

definition far_layout :: adjusted_positions where
  "far_layout =
     [(''GND'', \<lparr>position = (10, 6), comp_type = ''ground'', label = [],
         width = 100, height = 100, connected_pins = [],
         bbox = \<lparr>x_min = - 40, x_max = 60, y_min = - 44, y_max = 56,
                 bwidth = 100, bheight = 100\<rparr>\<rparr>)]"

text \<open>
  Doubles by their exact values: the doubles nearest to 1.2, 0.8, 0.6 and 0.4, and the
  results of the roundings below. A chip of width and height 1.2, the box of a component of
  width and height 0.8 at \<open>(-3, 0.75)\<close>, and a box with small integer corners.
\<close>

definition double_1_2 :: real where "double_1_2 = 5404319552844595 / 2 ^ 52"
definition double_0_8 :: real where "double_0_8 = 3602879701896397 / 2 ^ 52"
definition double_0_6 :: real where "double_0_6 = 5404319552844595 / 2 ^ 53"
definition double_0_4 :: real where "double_0_4 = 3602879701896397 / 2 ^ 53"
definition double_2_6 :: real where "double_2_6 = 5854679515581645 / 2 ^ 51"
definition double_3_4 :: real where "double_3_4 = 7656119366529843 / 2 ^ 51"
definition double_0_35 :: real where "double_0_35 = 3152519739159347 / 2 ^ 53"
definition double_1_15 :: real where "double_1_15 = 2589569785738035 / 2 ^ 51"
definition double_3_15 :: real where "double_3_15 = 7093169413108531 / 2 ^ 51"
definition double_0_6_up :: real where "double_0_6_up = 1351079888211149 / 2 ^ 51"

definition chip_1_2 :: chip_info where
  "chip_1_2 = get_chip_info_fp ''NE555'' double_1_2 double_1_2"

definition box_0_8 :: sized_bbox where
  "box_0_8 = create_bbox_from_position_fp (- 3) (3 / 4) double_0_8 double_0_8"

definition box_west :: bbox where
  "box_west = \<lparr>x_min = - 5, x_max = - 3, y_min = - 5, y_max = - 3\<rparr>"

section \<open>Auxiliary lemmas\<close>

subsection \<open>Boxes and single checks\<close>

lemma check_bbox_collision_commute:
  "check_bbox_collision b1 b2 m = check_bbox_collision b2 b1 m"
  by (auto simp: check_bbox_collision_def)

lemma collides_with_placed_iff:
  "collides_with_placed cid tb adj =
     (\<exists>p \<in> set adj. fst p \<noteq> cid \<and>
        check_bbox_collision tb
          (create_bbox_from_position (fst (position (snd p))) (snd (position (snd p)))
             (width (snd p)) (height (snd p))) 1)"
  by (induction cid tb adj rule: collides_with_placed.induct) (auto simp: Let_def)

subsection \<open>Pins\<close>

lemma pin_side_known:
  "fst (get_pin_position_on_chip pin) \<in> {''left'', ''right'', ''top'', ''bot''}"
  by (simp add: get_pin_position_on_chip_def pin_configs_def)





subsection \<open>The search loop\<close>

lemma next_candidate_spec:
  "next_candidate c attempt = spec_candidate (calculate_optimal_position c) (Suc attempt)"
  by (auto simp: next_candidate_def spec_candidate_def spec_offset_def Let_def case_prod_beta)

lemma search_attempts_upt:
  "search_attempts chip adj cid c [i..<n] (spec_candidate (calculate_optimal_position c) i) =
     map_option (spec_candidate (calculate_optimal_position c))
       (find (\<lambda>k. \<not> has_collision chip adj cid c
                 (fst (spec_candidate (calculate_optimal_position c) k))
                 (snd (spec_candidate (calculate_optimal_position c) k))) [i..<n])"
proof (induction "n - i" arbitrary: i)
  case 0
  then show ?case by simp
next
  case (Suc d)
  then have lt: "i < n" and d: "d = n - Suc i" by simp_all
  show ?case
    using Suc.hyps(1)[OF d] lt
    by (simp add: upt_conv_Cons next_candidate_spec)
qed

lemma search_attempts_Some_free:
  "search_attempts chip adj cid c attempts xy = Some p \<Longrightarrow>
     \<not> has_collision chip adj cid c (fst p) (snd p)"
  by (induction attempts arbitrary: xy) (auto split: if_splits)

text \<open>Every candidate after the first lies within 21.5 of the ideal position, per axis.\<close>

lemma next_candidate_near:
  assumes "attempt < 50"
  shows "\<bar>fst (next_candidate c attempt) - fst (calculate_optimal_position c)\<bar> \<le> 43 / 2"
    and "\<bar>snd (next_candidate c attempt) - snd (calculate_optimal_position c)\<bar> \<le> 43 / 2"
proof -
  define r :: real where "r = (if attempt < 8 then 1 else 1 * (1 + (real attempt - 8) * 0.5))"
  define a :: real where
    "a = radians (if attempt < 8 then real (attempt * 45) else real ((attempt * 30) mod 360))"
  have r: "0 \<le> r" "r \<le> 43 / 2" using assms by (auto simp: r_def)
  have fs: "fst (next_candidate c attempt) = fst (calculate_optimal_position c) + r * cos a"
    and sn: "snd (next_candidate c attempt) = snd (calculate_optimal_position c) + r * sin a"
    by (auto simp: next_candidate_def Let_def case_prod_beta r_def a_def)
  have "\<bar>r * cos a\<bar> \<le> r * 1"
    unfolding abs_mult using r(1) by (intro mult_mono) auto
  with r fs show "\<bar>fst (next_candidate c attempt) - fst (calculate_optimal_position c)\<bar> \<le> 43 / 2"
    by simp
  have "\<bar>r * sin a\<bar> \<le> r * 1"
    unfolding abs_mult using r(1) by (intro mult_mono) auto
  with r sn show "\<bar>snd (next_candidate c attempt) - snd (calculate_optimal_position c)\<bar> \<le> 43 / 2"
    by simp
qed

lemma search_attempts_all_collide:
  assumes coll: "\<And>x y. \<bar>x - fst (calculate_optimal_position c)\<bar> \<le> 43 / 2 \<Longrightarrow>
                   \<bar>y - snd (calculate_optimal_position c)\<bar> \<le> 43 / 2 \<Longrightarrow>
                   has_collision chip adj cid c x y"
    and "\<forall>a \<in> set attempts. a < 50"
    and "\<bar>fst xy - fst (calculate_optimal_position c)\<bar> \<le> 43 / 2"
    and "\<bar>snd xy - snd (calculate_optimal_position c)\<bar> \<le> 43 / 2"
  shows "search_attempts chip adj cid c attempts xy = None"
  using assms(2-)
proof (induction attempts arbitrary: xy)
  case Nil
  then show ?case by simp
next
  case (Cons a attempts)
  have "has_collision chip adj cid c (fst xy) (snd xy)"
    using coll Cons.prems by blast
  moreover have "search_attempts chip adj cid c attempts (next_candidate c a) = None"
    using Cons.prems next_candidate_near[of a c] by (intro Cons.IH) auto
  ultimately show ?case by simp
qed

subsection \<open>The resolver\<close>

lemma update_fresh: "k \<notin> fst ` set al \<Longrightarrow> AList.update k v al = al @ [(k, v)]"
  by (induction al) auto

lemma place_component_fresh:
  "fst item \<notin> fst ` set adj \<Longrightarrow>
     place_component chip adj item = adj @ [(fst item, new_entry chip adj item)]"
  by (simp add: place_component_def new_entry_def case_prod_beta update_fresh Let_def)

lemma new_entry_bbox: "bbox (new_entry chip adj item) = entry_bbox (new_entry chip adj item)"
  by (simp add: new_entry_def entry_bbox_def Let_def)

lemma new_entry_position:
  "position (new_entry chip adj item) =
     adjust_position_to_avoid_collision chip adj (fst item) (snd item)"
  by (simp add: new_entry_def Let_def)

lemma new_entry_free:
  assumes "search_attempts chip adj (fst item) (snd item) [0..<max_attempts]
             (calculate_optimal_position (snd item)) \<noteq> None"
  shows "\<not> check_collision_with_chip chip (entry_bbox (new_entry chip adj item)) 2"
    and "\<forall>q \<in> set adj. fst q \<noteq> fst item \<longrightarrow>
           \<not> check_bbox_collision (entry_bbox (new_entry chip adj item)) (entry_bbox (snd q)) 1"
proof -
  from assms obtain p where p: "search_attempts chip adj (fst item) (snd item) [0..<max_attempts]
             (calculate_optimal_position (snd item)) = Some p" by auto
  then have pos: "adjust_position_to_avoid_collision chip adj (fst item) (snd item) = p"
    by (simp add: adjust_position_to_avoid_collision_def)
  have eb: "entry_bbox (new_entry chip adj item) =
      create_bbox_from_position (fst p) (snd p) (width (snd item)) (height (snd item))"
    by (simp add: new_entry_def entry_bbox_def Let_def pos)
  from search_attempts_Some_free[OF p]
  have free: "\<not> has_collision chip adj (fst item) (snd item) (fst p) (snd p)" .
  then show "\<not> check_collision_with_chip chip (entry_bbox (new_entry chip adj item)) 2"
    by (auto simp: has_collision_def Let_def eb split: if_splits)
  from free show "\<forall>q \<in> set adj. fst q \<noteq> fst item \<longrightarrow>
           \<not> check_bbox_collision (entry_bbox (new_entry chip adj item)) (entry_bbox (snd q)) 1"
    unfolding eb
    by (auto simp: has_collision_def Let_def collides_with_placed_iff entry_bbox_def
        split: if_splits)
qed

text \<open>
  A run over items with fresh, distinct ids appends one entry per item and keeps what was
  there; an entry whose search found a free candidate is clear of the chip and of all
  entries before it.
\<close>

lemma resolve_fold:
  assumes "distinct (map fst adj @ map fst items)"
  shows "take (length adj) (fold (\<lambda>item adj'. place_component chip adj' item) items adj) = adj \<and>
         map fst (fold (\<lambda>item adj'. place_component chip adj' item) items adj) =
           map fst adj @ map fst items \<and>
         (\<forall>j. length adj \<le> j \<and> j < length adj + length items \<longrightarrow>
              bbox (snd (fold (\<lambda>item adj'. place_component chip adj' item) items adj ! j)) =
              entry_bbox (snd (fold (\<lambda>item adj'. place_component chip adj' item) items adj ! j)) \<and>
              (fst (fold (\<lambda>item adj'. place_component chip adj' item) items adj ! j)
                 \<notin> set (fallback_ids chip adj items) \<longrightarrow>
               placed_free chip (fold (\<lambda>item adj'. place_component chip adj' item) items adj) j))"
  using assms
proof (induction items arbitrary: adj)
  case Nil
  then show ?case by auto
next
  case (Cons item rest)
  let ?e = "new_entry chip adj item"
  let ?adj' = "adj @ [(fst item, ?e)]"
  let ?L = "fold (\<lambda>item adj'. place_component chip adj' item) rest ?adj'"
  have fresh: "fst item \<notin> fst ` set adj" using Cons.prems by auto
  have step: "place_component chip adj item = ?adj'"
    by (rule place_component_fresh[OF fresh])
  have L: "fold (\<lambda>item adj'. place_component chip adj' item) (item # rest) adj = ?L"
    by (simp add: step)
  have dist': "distinct (map fst ?adj' @ map fst rest)" using Cons.prems by auto
  note IH = Cons.IH[OF dist']
  from IH have tk': "take (Suc (length adj)) ?L = ?adj'" by simp
  have tk: "take (length adj) ?L = adj"
  proof -
    have "take (length adj) ?L = take (length adj) (take (Suc (length adj)) ?L)"
      by (simp add: min_def)
    also have "\<dots> = adj" by (simp add: tk')
    finally show ?thesis .
  qed
  have keys: "map fst ?L = map fst adj @ map fst (item # rest)" using IH by simp
  have nth_old: "?L ! i = adj ! i" if "i < length adj" for i
    using that tk by (metis nth_take)
  have nth_new: "?L ! length adj = (fst item, ?e)"
  proof -
    have "?L ! length adj = take (Suc (length adj)) ?L ! length adj" by simp
    also have "\<dots> = (fst item, ?e)" by (simp add: tk')
    finally show ?thesis .
  qed
  have main: "bbox (snd (?L ! j)) = entry_bbox (snd (?L ! j)) \<and>
      (fst (?L ! j) \<notin> set (fallback_ids chip adj (item # rest)) \<longrightarrow> placed_free chip ?L j)"
    if j: "length adj \<le> j" "j < length adj + length (item # rest)" for j
  proof (cases "j = length adj")
    case True
    have b: "bbox (snd (?L ! j)) = entry_bbox (snd (?L ! j))"
      by (simp add: True nth_new new_entry_bbox)
    have "placed_free chip ?L j"
      if nf: "fst (?L ! j) \<notin> set (fallback_ids chip adj (item # rest))"
    proof -
      from nf have found: "search_attempts chip adj (fst item) (snd item) [0..<max_attempts]
             (calculate_optimal_position (snd item)) \<noteq> None"
        by (auto simp: True nth_new split: if_splits)
      note free = new_entry_free[OF found]
      have "\<not> check_bbox_collision (entry_bbox ?e) (entry_bbox (snd (?L ! i))) 1"
        if "i < j" for i
      proof -
        from that True have i: "i < length adj" by simp
        then have mem: "adj ! i \<in> set adj" by simp
        then have "fst (adj ! i) \<noteq> fst item" using fresh by (metis imageI)
        with free(2) mem show ?thesis by (simp add: nth_old[OF i])
      qed
      with free(1) b show ?thesis
        by (simp add: placed_free_def True nth_new)
    qed
    with b show ?thesis by simp
  next
    case False
    with j have j': "length ?adj' \<le> j \<and> j < length ?adj' + length rest" by simp
    from IH j' have b: "bbox (snd (?L ! j)) = entry_bbox (snd (?L ! j))"
      and pf: "fst (?L ! j) \<notin> set (fallback_ids chip ?adj' rest) \<longrightarrow> placed_free chip ?L j"
      by blast+
    have "set (fallback_ids chip ?adj' rest) \<subseteq> set (fallback_ids chip adj (item # rest))"
      by (auto simp: step)
    with b pf show ?thesis by blast
  qed
  show ?case unfolding L using tk keys main by blast
qed

lemma sorted_components_mset: "mset (sorted_components component_info) = mset component_info"
  by (simp add: sorted_components_def)

lemma sorted_components_distinct:
  assumes "distinct (map fst component_info)"
  shows "distinct (map fst (sorted_components component_info))"
proof -
  have "mset (map fst (sorted_components component_info)) = mset (map fst component_info)"
    using arg_cong[OF sorted_components_mset, of "image_mset fst" component_info] by simp
  then show ?thesis using assms by (metis mset_eq_imp_distinct_iff)
qed

lemma resolve_keys:
  assumes "distinct (map fst component_info)"
  shows "map fst (detect_and_resolve_collisions chip component_info []) =
           map fst (sorted_components component_info)"
  using resolve_fold[of "[]" "sorted_components component_info" chip]
    sorted_components_distinct[OF assms]
  by (simp add: detect_and_resolve_collisions_def)

lemma resolve_entries:
  assumes "distinct (map fst component_info)"
    and "j < length (detect_and_resolve_collisions chip component_info [])"
  shows "bbox (snd (detect_and_resolve_collisions chip component_info [] ! j)) =
           entry_bbox (snd (detect_and_resolve_collisions chip component_info [] ! j))"
    and "fst (detect_and_resolve_collisions chip component_info [] ! j)
           \<notin> placed_by_fallback chip component_info \<Longrightarrow>
         placed_free chip (detect_and_resolve_collisions chip component_info []) j"
proof -
  have len: "length (detect_and_resolve_collisions chip component_info []) =
      length (sorted_components component_info)"
    using arg_cong[OF resolve_keys[OF assms(1), of chip], of length] by simp
  with assms(2) have j: "j < length (sorted_components component_info)" by simp
  from resolve_fold[of "[]" "sorted_components component_info" chip]
    sorted_components_distinct[OF assms(1)] j
  show "bbox (snd (detect_and_resolve_collisions chip component_info [] ! j)) =
           entry_bbox (snd (detect_and_resolve_collisions chip component_info [] ! j))"
    and "fst (detect_and_resolve_collisions chip component_info [] ! j)
           \<notin> placed_by_fallback chip component_info \<Longrightarrow>
         placed_free chip (detect_and_resolve_collisions chip component_info []) j"
    by (simp_all add: detect_and_resolve_collisions_def placed_by_fallback_def)
qed

subsection \<open>Minimum and maximum of a list\<close>

lemma py_min_Min: "xs \<noteq> [] \<Longrightarrow> py_min xs = Min (set xs)"
  by (cases xs) (simp_all add: Min.set_eq_fold[symmetric] del: list.set)

lemma py_max_Max: "xs \<noteq> [] \<Longrightarrow> py_max xs = Max (set xs)"
  by (cases xs) (simp_all add: Max.set_eq_fold[symmetric] del: list.set)

lemma overall_bounding_box_corners:
  "x_min (overall_bounding_box chip layout) = Min (corner_xs chip layout)"
  "x_max (overall_bounding_box chip layout) = Max (corner_xs chip layout)"
  "y_min (overall_bounding_box chip layout) = Min (corner_ys chip layout)"
  "y_max (overall_bounding_box chip layout) = Max (corner_ys chip layout)"
proof -
  have xs: "set (map (\<lambda>pos. x_min (bbox (snd pos))) layout @
                 map (\<lambda>pos. x_max (bbox (snd pos))) layout @
                 [x_min (chip_bbox chip), x_max (chip_bbox chip)]) = corner_xs chip layout"
    by (auto simp: corner_xs_def layout_boxes_def)
  have ys: "set (map (\<lambda>pos. y_min (bbox (snd pos))) layout @
                 map (\<lambda>pos. y_max (bbox (snd pos))) layout @
                 [y_min (chip_bbox chip), y_max (chip_bbox chip)]) = corner_ys chip layout"
    by (auto simp: corner_ys_def layout_boxes_def)
  show "x_min (overall_bounding_box chip layout) = Min (corner_xs chip layout)"
    unfolding xs[symmetric] by (simp add: overall_bounding_box_def Let_def py_min_Min del: set_append)
  show "x_max (overall_bounding_box chip layout) = Max (corner_xs chip layout)"
    unfolding xs[symmetric] by (simp add: overall_bounding_box_def Let_def py_max_Max del: set_append)
  show "y_min (overall_bounding_box chip layout) = Min (corner_ys chip layout)"
    unfolding ys[symmetric] by (simp add: overall_bounding_box_def Let_def py_min_Min del: set_append)
  show "y_max (overall_bounding_box chip layout) = Max (corner_ys chip layout)"
    unfolding ys[symmetric] by (simp add: overall_bounding_box_def Let_def py_max_Max del: set_append)
qed

subsection \<open>The example inputs\<close>

lemma upt_max_attempts: "[0..<max_attempts] = 0 # 1 # [2..<50]"
  by (simp add: max_attempts_def upt_conv_Cons)

lemma upt_50: "[0..<50] = 0 # 1 # [2..<50]"
  by (simp add: upt_conv_Cons)

lemma optimal_r1: "calculate_optimal_position resistor_r1 = (- 3, 3 / 4)"
  by (simp add: calculate_optimal_position_def resistor_r1_def pin_target_def
      get_pin_position_on_chip_def pin_configs_def)

lemma optimal_d1: "calculate_optimal_position led_d1 = (3, 0)"
  by (simp add: calculate_optimal_position_def led_d1_def pin_target_def
      get_pin_position_on_chip_def pin_configs_def)

lemma optimal_flat: "calculate_optimal_position flat_resistor = (- 3, 3 / 4)"
  by (simp add: calculate_optimal_position_def flat_resistor_def pin_target_def
      get_pin_position_on_chip_def pin_configs_def)

lemma optimal_huge_ground: "calculate_optimal_position huge_ground = (2, 2)"
  by (simp add: calculate_optimal_position_def huge_ground_def)

lemma optimal_huge_resistor: "calculate_optimal_position huge_resistor = (- 3, 3 / 4)"
  by (simp add: calculate_optimal_position_def huge_resistor_def pin_target_def
      get_pin_position_on_chip_def pin_configs_def)

lemma free_r1: "\<not> has_collision small_chip [] ''R1'' resistor_r1 (- 3) (3 / 4)"
  by (simp add: has_collision_def check_collision_with_chip_def check_bbox_collision_def
      create_bbox_from_position_def small_chip_def get_chip_info_def resistor_r1_def Let_def)

lemma search_r1:
  "search_attempts small_chip [] ''R1'' resistor_r1 [0..<max_attempts]
     (calculate_optimal_position resistor_r1) = Some (- 3, 3 / 4)"
  unfolding upt_max_attempts optimal_r1 using free_r1 by simp

lemma place_r1: "place_component small_chip [] (''R1'', resistor_r1) = [hd two_layout]"
  unfolding place_component_def Let_def prod.case adjust_position_to_avoid_collision_def search_r1
  by (simp add: two_layout_def create_bbox_from_position_def resistor_r1_def)

lemma free_d1: "\<not> has_collision small_chip [hd two_layout] ''D1'' led_d1 3 0"
  by (simp add: has_collision_def check_collision_with_chip_def check_bbox_collision_def
      create_bbox_from_position_def small_chip_def get_chip_info_def led_d1_def Let_def
      two_layout_def)

lemma search_d1:
  "search_attempts small_chip [hd two_layout] ''D1'' led_d1 [0..<max_attempts]
     (calculate_optimal_position led_d1) = Some (3, 0)"
  unfolding upt_max_attempts optimal_d1 using free_d1 by simp

lemma place_d1: "place_component small_chip [hd two_layout] (''D1'', led_d1) = two_layout"
  unfolding place_component_def Let_def prod.case adjust_position_to_avoid_collision_def search_d1
  by (simp add: two_layout_def create_bbox_from_position_def led_d1_def)

lemma sorted_two: "sorted_components two_components = two_components"
  by (simp add: sorted_components_def two_components_def resistor_r1_def led_d1_def)

lemma resolve_two: "detect_and_resolve_collisions small_chip two_components [] = two_layout"
  unfolding detect_and_resolve_collisions_def sorted_two
  unfolding two_components_def
  by (simp only: fold.simps o_apply id_apply place_r1 place_d1)

lemma fallback_two: "placed_by_fallback small_chip two_components = {}"
  unfolding placed_by_fallback_def sorted_two
  unfolding two_components_def
  by (simp only: fallback_ids.simps fst_conv snd_conv search_r1 search_d1 place_r1 place_d1)
    simp

lemma free_flat: "\<not> has_collision small_chip [] ''R0'' flat_resistor (- 3) (3 / 4)"
  by (simp add: has_collision_def check_collision_with_chip_def check_bbox_collision_def
      create_bbox_from_position_def small_chip_def get_chip_info_def flat_resistor_def Let_def)

lemma search_flat:
  "search_attempts small_chip [] ''R0'' flat_resistor [0..<max_attempts]
     (calculate_optimal_position flat_resistor) = Some (- 3, 3 / 4)"
  unfolding upt_max_attempts optimal_flat using free_flat by simp

lemma resolve_flat:
  "detect_and_resolve_collisions small_chip [(''R0'', flat_resistor)] [] = flat_layout"
proof -
  have "place_component small_chip [] (''R0'', flat_resistor) = flat_layout"
    unfolding place_component_def Let_def prod.case adjust_position_to_avoid_collision_def
      search_flat
    by (simp add: flat_layout_def create_bbox_from_position_def flat_resistor_def)
  then show ?thesis
    by (simp add: detect_and_resolve_collisions_def sorted_components_def)
qed

lemma huge_ground_collides:
  assumes "\<bar>x - 2\<bar> \<le> 43 / 2" "\<bar>y - 2\<bar> \<le> 43 / 2"
  shows "has_collision wide_chip adj cid huge_ground x y"
  using assms
  by (auto simp add: has_collision_def check_collision_with_chip_def check_bbox_collision_def
      create_bbox_from_position_def wide_chip_def get_chip_info_def huge_ground_def Let_def)

lemma search_huge_ground:
  "search_attempts wide_chip [] ''GND'' huge_ground [0..<max_attempts]
     (calculate_optimal_position huge_ground) = None"
  by (rule search_attempts_all_collide)
    (simp_all add: optimal_huge_ground huge_ground_collides max_attempts_def)

lemma resolve_huge_ground:
  "detect_and_resolve_collisions wide_chip [(''GND'', huge_ground)] [] = far_layout"
proof -
  have "adjust_position_to_avoid_collision wide_chip [] ''GND'' huge_ground = (10, 6)"
    unfolding adjust_position_to_avoid_collision_def search_huge_ground
    by (simp add: far_placement_def huge_ground_def)
  then have "place_component wide_chip [] (''GND'', huge_ground) = far_layout"
    unfolding place_component_def Let_def prod.case
    by (simp add: far_layout_def create_bbox_from_position_def huge_ground_def)
  then show ?thesis
    by (simp add: detect_and_resolve_collisions_def sorted_components_def)
qed

lemma huge_resistor_collides:
  assumes "\<bar>x + 3\<bar> \<le> 43 / 2" "\<bar>y - 3 / 4\<bar> \<le> 43 / 2"
  shows "has_collision wide_chip adj cid huge_resistor x y"
  using assms
  by (auto simp add: has_collision_def check_collision_with_chip_def check_bbox_collision_def
      create_bbox_from_position_def wide_chip_def get_chip_info_def huge_resistor_def Let_def)

lemma search_huge_resistor:
  "search_attempts wide_chip [] ''R9'' huge_resistor [0..<50]
     (calculate_optimal_position huge_resistor) = None"
  by (rule search_attempts_all_collide)
    (simp_all add: optimal_huge_resistor huge_resistor_collides)

lemma collides_d1_ideal: "has_collision mid_chip [] ''D1'' led_d1 3 0"
  by (simp add: has_collision_def check_collision_with_chip_def check_bbox_collision_def
      create_bbox_from_position_def mid_chip_def get_chip_info_def led_d1_def Let_def)

lemma free_d1_east: "\<not> has_collision mid_chip [] ''D1'' led_d1 4 0"
  by (simp add: has_collision_def check_collision_with_chip_def check_bbox_collision_def
      create_bbox_from_position_def mid_chip_def get_chip_info_def led_d1_def Let_def)

lemma candidates_d1:
  "spec_candidate (3, 0) 0 = (3, 0)" "spec_candidate (3, 0) 1 = (4, 0)"
  by (simp_all add: spec_candidate_def spec_offset_def radians_def)

subsection \<open>Rounding to doubles\<close>

text \<open>The rounding of a value whose binade is known, upwards and downwards of 1.\<close>

lemma floor_log2_eq:
  assumes "0 < x" "2 powr of_int e \<le> x" "x < 2 powr (of_int e + 1)"
  shows "\<lfloor>log 2 x\<rfloor> = e"
proof -
  have "of_int e \<le> log 2 x" using assms by (simp add: le_log_iff)
  moreover have "log 2 x < of_int e + 1" using assms by (simp add: log_less_iff)
  ultimately show ?thesis by linarith
qed

lemma round_double_up:
  fixes k :: nat
  assumes "2 ^ k \<le> \<bar>x\<bar>" "\<bar>x\<bar> < 2 * 2 ^ k"
    and "round_half_even (x * 2 ^ 52 / 2 ^ k) = n"
  shows "round_double x = of_int n * 2 ^ k / 2 ^ 52"
proof -
  have "(0::real) < 2 ^ k" by simp
  with assms(1) have pos: "0 < \<bar>x\<bar>" by linarith
  have "\<lfloor>log 2 \<bar>x\<bar>\<rfloor> = int k"
    using assms(1,2) pos by (intro floor_log2_eq) (simp_all add: powr_realpow powr_add)
  then have u: "double_ulp x = 2 ^ k / 2 ^ 52"
    by (simp add: double_ulp_def powr_diff powr_realpow)
  from pos have "x \<noteq> 0" by auto
  then show ?thesis using assms(3) by (simp add: round_double_def u)
qed

lemma round_double_down:
  fixes k :: nat
  assumes "1 \<le> \<bar>x\<bar> * 2 ^ k" "\<bar>x\<bar> * 2 ^ k < 2" "k \<le> 1022"
    and "round_half_even (x * (2 ^ 52 * 2 ^ k)) = n"
  shows "round_double x = of_int n / (2 ^ 52 * 2 ^ k)"
proof -
  have "x \<noteq> 0" using assms(1) by auto
  then have pos: "0 < \<bar>x\<bar>" by simp
  have p: "2 powr (- real k) = 1 / 2 ^ k" by (simp add: powr_minus powr_realpow field_simps)
  have p2: "2 powr (1 - real k) = 2 / 2 ^ k" by (simp add: powr_diff powr_realpow)
  have "\<lfloor>log 2 \<bar>x\<bar>\<rfloor> = - int k"
    using assms(1,2) pos
    by (intro floor_log2_eq) (simp_all add: p p2 field_simps)
  moreover have "max (- int k) (- 1022) = - int k" using assms(3) by simp
  ultimately have "double_ulp x = 2 powr (- real k - 52)"
    by (simp add: double_ulp_def)
  then have u: "double_ulp x = 1 / (2 ^ 52 * 2 ^ k)"
    by (simp add: powr_diff p powr_realpow[of 2 52, simplified])
  from pos have "x \<noteq> 0" by auto
  then show ?thesis using assms(4) by (simp add: round_double_def u)
qed

lemma rd_half_1_2: "round_double (double_1_2 / 2) = double_0_6"
  unfolding double_1_2_def double_0_6_def
  by (rule round_double_down[where k = 1 and n = 5404319552844595, THEN trans])
    (simp_all add: round_half_even_def)

lemma rd_neg_half_1_2: "round_double (- double_1_2 / 2) = - double_0_6"
  unfolding double_1_2_def double_0_6_def
  by (rule round_double_down[where k = 1 and n = "- 5404319552844595", THEN trans])
    (simp_all add: round_half_even_def)

lemma rd_half_0_8: "round_double (double_0_8 / 2) = double_0_4"
  unfolding double_0_8_def double_0_4_def
  by (rule round_double_down[where k = 2 and n = 7205759403792794, THEN trans])
    (simp_all add: round_half_even_def)

lemma rd_west_edge: "round_double (- 3 - double_0_4) = - double_3_4"
  unfolding double_0_4_def double_3_4_def
  by (rule round_double_up[where k = 1 and n = "- 7656119366529843", THEN trans])
    (simp_all add: round_half_even_def)

lemma rd_east_edge: "round_double (- 3 + double_0_4) = - double_2_6"
  unfolding double_0_4_def double_2_6_def
  by (rule round_double_up[where k = 1 and n = "- 5854679515581645", THEN trans])
    (simp_all add: round_half_even_def)

lemma rd_south_edge: "round_double (3 / 4 - double_0_4) = double_0_35"
  unfolding double_0_4_def double_0_35_def
  by (rule round_double_down[where k = 2 and n = 6305039478318694, THEN trans])
    (simp_all add: round_half_even_def)

lemma rd_north_edge: "round_double (3 / 4 + double_0_4) = double_1_15"
  unfolding double_0_4_def double_1_15_def
  by (rule round_double_up[where k = 0 and n = 5179139571476070, THEN trans])
    (simp_all add: round_half_even_def)

lemma rd_chip_low: "round_double (- double_0_6 - 2) = - double_2_6"
  unfolding double_0_6_def double_2_6_def
  by (rule round_double_up[where k = 1 and n = "- 5854679515581645", THEN trans])
    (simp_all add: round_half_even_def)

lemma rd_chip_high: "round_double (double_0_6 + 2) = double_2_6"
  unfolding double_0_6_def double_2_6_def
  by (rule round_double_up[where k = 1 and n = 5854679515581645, THEN trans])
    (simp_all add: round_half_even_def)

lemma rd_2_6: "round_double double_2_6 = double_2_6" "round_double (- double_2_6) = - double_2_6"
  unfolding double_2_6_def
  by (rule round_double_up[where k = 1 and n = 5854679515581645, THEN trans],
      simp_all add: round_half_even_def,
      rule round_double_up[where k = 1 and n = "- 5854679515581645", THEN trans],
      simp_all add: round_half_even_def)

lemma rd_1_15: "round_double double_1_15 = double_1_15"
  unfolding double_1_15_def
  by (rule round_double_up[where k = 0 and n = 5179139571476070, THEN trans])
    (simp_all add: round_half_even_def)

lemma rd_east_plus_2: "round_double (- double_2_6 + 2) = - double_0_6_up"
  unfolding double_2_6_def double_0_6_up_def
  by (rule round_double_down[where k = 1 and n = "- 5404319552844596", THEN trans])
    (simp_all add: round_half_even_def)

lemma rd_north_plus_2: "round_double (double_1_15 + 2) = double_3_15"
  unfolding double_1_15_def double_3_15_def
  by (rule round_double_up[where k = 1 and n = 7093169413108531, THEN trans])
    (simp_all add: round_half_even_def)

lemma rd_small:
  "round_double (- 4) = - 4" "round_double 4 = 4" "round_double (- 3) = - 3"
  "round_double (- 1) = - 1"
  by (rule round_double_up[where k = 2 and n = "- 4503599627370496", THEN trans],
      simp_all add: round_half_even_def,
      rule round_double_up[where k = 2 and n = 4503599627370496, THEN trans],
      simp_all add: round_half_even_def,
      rule round_double_up[where k = 1 and n = "- 6755399441055744", THEN trans],
      simp_all add: round_half_even_def,
      rule round_double_up[where k = 0 and n = "- 4503599627370496", THEN trans],
      simp_all add: round_half_even_def)

lemma chip_1_2_bbox:
  "chip_bbox chip_1_2 = \<lparr>x_min = - double_0_6, x_max = double_0_6,
     y_min = - double_0_6, y_max = double_0_6, bwidth = double_1_2, bheight = double_1_2\<rparr>"
  by (simp add: chip_1_2_def get_chip_info_fp_def rd_half_1_2 rd_neg_half_1_2[simplified])

lemma box_0_8_bbox:
  "box_0_8 = \<lparr>x_min = - double_3_4, x_max = - double_2_6,
     y_min = double_0_35, y_max = double_1_15, bwidth = double_0_8, bheight = double_0_8\<rparr>"
  by (simp add: box_0_8_def create_bbox_from_position_fp_def rd_half_0_8 rd_west_edge
      rd_east_edge[simplified] rd_south_edge rd_north_edge)

lemma collides_with_placed_fp_iff:
  "collides_with_placed_fp cid tb adj =
     (\<exists>p \<in> set adj. fst p \<noteq> cid \<and>
        check_bbox_collision_fp tb
          (create_bbox_from_position_fp (fst (position (snd p))) (snd (position (snd p)))
             (width (snd p)) (height (snd p))) 1)"
  by (induction cid tb adj rule: collides_with_placed_fp.induct) (auto simp: Let_def)

lemma double_order:
  "double_0_6 < double_0_6_up" "0 < double_0_6" "double_0_6 < double_2_6"
  "double_0_35 < double_2_6" "double_1_15 < double_2_6" "double_2_6 < double_3_4"
  "0 < double_3_15" "0 < double_0_35" "0 < double_1_15"
  by (simp_all add: double_0_6_def double_0_6_up_def double_2_6_def double_0_35_def
      double_1_15_def double_3_4_def double_3_15_def)

section \<open>Properties\<close>

subsection \<open>The overlap predicate\<close>

text \<open>
  C10. The bounding-box overlap predicate is symmetric in its two boxes, for every margin,
  so checking a new candidate against a placed box decides the same relation as checking
  the placed box against the candidate.
\<close>

theorem check_bbox_collision_symmetric:
  "check_bbox_collision b1 b2 m = check_bbox_collision b2 b1 m"
  by (auto simp: check_bbox_collision_def)

text \<open>
  C2. Every collision check is the one predicate, with the sums of doubles: two boxes
  overlap with margin \<open>m\<close> unless one lies beyond the other by more than \<open>m\<close> on some axis.
  The check against the chip widens the chip's box by 2 on each side and tests it with
  margin 0; a candidate collides when it overlaps the chip so, or overlaps with margin 1
  the box of a component placed under another id. When the sums and differences with the
  margin are free of rounding, the check against the chip agrees with the predicate at
  margin 2, in doubles and over the reals. For doubles in general it does not.
\<close>

theorem chip_check_expands_then_zero_margin:
  "check_bbox_collision_fp a b m =
     (\<not> (round_double (x_max a + m) < x_min b \<or> round_double (x_max b + m) < x_min a \<or>
         round_double (y_max a + m) < y_min b \<or> round_double (y_max b + m) < y_min a)) \<and>
   check_collision_with_chip_fp chip t 2 =
     check_bbox_collision_fp t
       \<lparr>x_min = round_double (x_min (chip_bbox chip) - 2),
        x_max = round_double (x_max (chip_bbox chip) + 2),
        y_min = round_double (y_min (chip_bbox chip) - 2),
        y_max = round_double (y_max (chip_bbox chip) + 2)\<rparr> 0 \<and>
   has_collision_fp chip adj cid c x y =
     (check_collision_with_chip_fp chip
        (create_bbox_from_position_fp x y (width c) (height c)) 2 \<or>
      (\<exists>p \<in> set adj. fst p \<noteq> cid \<and>
         check_bbox_collision_fp (create_bbox_from_position_fp x y (width c) (height c))
           (create_bbox_from_position_fp (fst (position (snd p))) (snd (position (snd p)))
              (width (snd p)) (height (snd p))) 1)) \<and>
   (margin_sums_exact chip t \<longrightarrow>
      check_collision_with_chip_fp chip t 2 = check_bbox_collision_fp t (chip_bbox chip) 2 \<and>
      check_collision_with_chip_fp chip t 2 = check_bbox_collision t (chip_bbox chip) 2)"
proof -
  have pred: "check_bbox_collision_fp a b m =
     (\<not> (round_double (x_max a + m) < x_min b \<or> round_double (x_max b + m) < x_min a \<or>
         round_double (y_max a + m) < y_min b \<or> round_double (y_max b + m) < y_min a))"
    by (simp add: check_bbox_collision_fp_def)
  have chip: "check_collision_with_chip_fp chip t 2 =
     check_bbox_collision_fp t
       \<lparr>x_min = round_double (x_min (chip_bbox chip) - 2),
        x_max = round_double (x_max (chip_bbox chip) + 2),
        y_min = round_double (y_min (chip_bbox chip) - 2),
        y_max = round_double (y_max (chip_bbox chip) + 2)\<rparr> 0"
    by (simp add: check_collision_with_chip_fp_def Let_def)
  have cand: "has_collision_fp chip adj cid c x y =
     (check_collision_with_chip_fp chip
        (create_bbox_from_position_fp x y (width c) (height c)) 2 \<or>
      (\<exists>p \<in> set adj. fst p \<noteq> cid \<and>
         check_bbox_collision_fp (create_bbox_from_position_fp x y (width c) (height c))
           (create_bbox_from_position_fp (fst (position (snd p))) (snd (position (snd p)))
              (width (snd p)) (height (snd p))) 1))"
    by (simp add: has_collision_fp_def Let_def collides_with_placed_fp_iff)
  have exact: "check_collision_with_chip_fp chip t 2 = check_bbox_collision_fp t (chip_bbox chip) 2 \<and>
      check_collision_with_chip_fp chip t 2 = check_bbox_collision t (chip_bbox chip) 2"
    if "margin_sums_exact chip t"
    using that
    by (auto simp: margin_sums_exact_def check_collision_with_chip_fp_def
        check_bbox_collision_fp_def check_bbox_collision_def Let_def)
  from pred chip cand exact show ?thesis by blast
qed

text \<open>
  For the chip of width 4 and a box with corners at \<open>-5\<close> and \<open>-3\<close> all sums are exact, and
  the three checks agree that the box is within the margin of the chip.
\<close>

theorem chip_check_expands_then_zero_margin_witness:
  "margin_sums_exact wide_chip box_west \<and>
   check_collision_with_chip_fp wide_chip box_west 2 \<and>
   check_bbox_collision_fp box_west (chip_bbox wide_chip) 2 \<and>
   check_bbox_collision box_west (chip_bbox wide_chip) 2"
proof -
  have e: "margin_sums_exact wide_chip box_west"
    by (simp add: margin_sums_exact_def wide_chip_def get_chip_info_def box_west_def rd_small)
  have "check_bbox_collision box_west (chip_bbox wide_chip) 2"
    by (simp add: check_bbox_collision_def wide_chip_def get_chip_info_def box_west_def)
  with chip_check_expands_then_zero_margin
    [of box_west "chip_bbox wide_chip" 2 wide_chip box_west "[]" "''R1''" resistor_r1 0 0] e
  show ?thesis by blast
qed

text \<open>
  For the chip of width 1.2 and the box of a component of width 0.8 at \<open>(-3, 0.75)\<close>, the
  widened chip box starts at the double below \<open>-2.6\<close>, which is also the right edge of the
  component's box: the check against the chip reports a collision. Adding 2 to that edge
  gives the double below \<open>-0.6\<close>, left of the chip's edge: the predicate at margin 2
  reports none.
\<close>

theorem expanded_chip_check_differs_from_margin_two:
  "check_collision_with_chip_fp chip_1_2 box_0_8 2 \<and>
   \<not> check_bbox_collision_fp box_0_8 (chip_bbox chip_1_2) 2"
proof -
  have "check_collision_with_chip_fp chip_1_2 box_0_8 2"
    unfolding check_collision_with_chip_fp_def check_bbox_collision_fp_def Let_def
      chip_1_2_bbox box_0_8_bbox
    using double_order
    by (simp add: rd_chip_low rd_chip_high rd_2_6 rd_1_15)
  moreover have "\<not> check_bbox_collision_fp box_0_8 (chip_bbox chip_1_2) 2"
    unfolding check_bbox_collision_fp_def chip_1_2_bbox box_0_8_bbox
    using double_order
    by (simp add: rd_east_plus_2[simplified])
  ultimately show ?thesis by blast
qed

subsection \<open>The ideal position\<close>



subsection \<open>The processing order\<close>

text \<open>
  C6. The resolver processes the components in the order of a stable sort by the number of
  connected pins, descending: the sorted list has the same items, the pin counts never
  increase along it, the items of each pin count keep their input order, the run is the
  fold of the placement over that list, and with distinct ids the layout lists the ids in
  that order.
\<close>

theorem components_sorted_by_pin_count_stably:
  "mset (sorted_components component_info) = mset component_info \<and>
   sorted_wrt (\<lambda>a b. length (connected_pins (snd b)) \<le> length (connected_pins (snd a)))
     (sorted_components component_info) \<and>
   filter (\<lambda>x. length (connected_pins (snd x)) = k) (sorted_components component_info) =
     filter (\<lambda>x. length (connected_pins (snd x)) = k) component_info \<and>
   detect_and_resolve_collisions chip component_info adj =
     fold (\<lambda>item adj'. place_component chip adj' item) (sorted_components component_info) adj \<and>
   (distinct (map fst component_info) \<longrightarrow>
      map fst (detect_and_resolve_collisions chip component_info []) =
        map fst (sorted_components component_info))"
proof -
  have "sorted (map (\<lambda>x. - int (length (connected_pins (snd x))))
          (sorted_components component_info))"
    unfolding sorted_components_def by (rule sorted_sort_key)
  then have desc: "sorted_wrt
      (\<lambda>a b. length (connected_pins (snd b)) \<le> length (connected_pins (snd a)))
      (sorted_components component_info)"
    by (simp add: sorted_wrt_map sorted_map)
  have stable: "filter (\<lambda>x. length (connected_pins (snd x)) = k)
        (sorted_components component_info) =
      filter (\<lambda>x. length (connected_pins (snd x)) = k) component_info"
    using sort_key_stable[of "\<lambda>x. - int (length (connected_pins (snd x)))" "- int k"
        component_info]
    by (simp add: sorted_components_def)
  have run: "detect_and_resolve_collisions chip component_info adj =
      fold (\<lambda>item adj'. place_component chip adj' item)
        (sorted_components component_info) adj"
    by (simp add: detect_and_resolve_collisions_def)
  have keys: "distinct (map fst component_info) \<longrightarrow>
      map fst (detect_and_resolve_collisions chip component_info []) =
        map fst (sorted_components component_info)"
    using resolve_keys[of component_info chip] by blast
  from sorted_components_mset[of component_info] desc stable run keys
  show ?thesis by (intro conjI)
qed

text \<open>
  Of R1 (one pin), C1 (two pins) and D1 (one pin), C1 is placed first and R1 stays before
  D1.
\<close>

theorem components_sorted_by_pin_count_stably_witness:
  "distinct (map fst three_components) \<and>
   map fst three_components = [''R1'', ''C1'', ''D1''] \<and>
   map fst (detect_and_resolve_collisions small_chip three_components []) = [''C1'', ''R1'', ''D1'']"
proof -
  have d: "distinct (map fst three_components)"
    by (simp add: three_components_def)
  have s: "map fst (sorted_components three_components) = [''C1'', ''R1'', ''D1'']"
    by (simp add: sorted_components_def three_components_def resistor_r1_def
        capacitor_c1_def led_d1_def)
  have m: "map fst three_components = [''R1'', ''C1'', ''D1'']"
    by (simp add: three_components_def)
  from components_sorted_by_pin_count_stably[of three_components 1 small_chip "[]"]
  have "distinct (map fst three_components) \<longrightarrow>
      map fst (detect_and_resolve_collisions small_chip three_components []) =
        map fst (sorted_components three_components)"
    by (elim conjE)
  with d s m show ?thesis by simp
qed

subsection \<open>The search\<close>

text \<open>
  C3. The search tests at most 50 candidates and returns the first one that is free of
  collisions, however far it lies from the ideal position. Candidate 0 is the ideal
  position; candidate \<open>k + 1\<close> is the ideal position, not the failed candidate, plus the
  offset of attempt index \<open>k\<close>: radius 1 at angle \<open>45 k\<close> degrees for \<open>k \<le> 7\<close>, radius
  \<open>1 + 0.5 (k - 8)\<close> at angle \<open>30 k mod 360\<close> degrees for \<open>k \<ge> 8\<close>. When all 50 collide the
  result is the far placement.
\<close>

theorem search_probes_fixed_anchor_spiral:
  "adjust_position_to_avoid_collision chip adj cid c =
     (case find (\<lambda>k. \<not> has_collision chip adj cid c
                      (fst (spec_candidate (calculate_optimal_position c) k))
                      (snd (spec_candidate (calculate_optimal_position c) k))) [0..<50] of
        Some k \<Rightarrow> spec_candidate (calculate_optimal_position c) k
      | None \<Rightarrow> far_placement c)"
proof -
  have c0: "spec_candidate (calculate_optimal_position c) 0 = calculate_optimal_position c"
    by (simp add: spec_candidate_def)
  have "search_attempts chip adj cid c [0..<max_attempts] (calculate_optimal_position c) =
     map_option (spec_candidate (calculate_optimal_position c))
       (find (\<lambda>k. \<not> has_collision chip adj cid c
                 (fst (spec_candidate (calculate_optimal_position c) k))
                 (snd (spec_candidate (calculate_optimal_position c) k))) [0..<50])"
    using search_attempts_upt[of chip adj cid c 0 50] unfolding c0 max_attempts_def .
  then show ?thesis
    unfolding adjust_position_to_avoid_collision_def
    by (cases "find (\<lambda>k. \<not> has_collision chip adj cid c
                 (fst (spec_candidate (calculate_optimal_position c) k))
                 (snd (spec_candidate (calculate_optimal_position c) k))) [0..<50]")
      (simp_all only: option.map option.case)
qed

text \<open>
  On the chip of width 3 the LED's ideal position \<open>(3, 0)\<close> overlaps the chip's margin; the
  candidate one unit to the east of it is free and is the result.
\<close>

theorem search_probes_fixed_anchor_spiral_witness:
  "adjust_position_to_avoid_collision mid_chip [] ''D1'' led_d1 = (4, 0)"
  using search_probes_fixed_anchor_spiral[of mid_chip "[]" "''D1''" led_d1]
  unfolding optimal_d1 upt_50 find.simps candidates_d1 fst_conv snd_conv
  by (simp only: collides_d1_ideal free_d1_east not_True_eq_False not_False_eq_True
      if_True if_False option.case candidates_d1)

subsection \<open>The last resort\<close>

text \<open>
  C4. When all 50 attempts collide the resolver returns the far placement without checking
  it, and stores it as the component's position: \<open>(10, 6)\<close> for a component without
  connected pins, otherwise the far anchor of the side of its first connected pin at that
  pin's offset: left \<open>(-10, 3 offset)\<close>, right \<open>(10, 3 offset)\<close>, top \<open>(3 offset, 8)\<close>, bottom
  \<open>(3 offset, -8)\<close>. The resolver has no error result.
\<close>

theorem fallback_accepts_far_placement:
  assumes "search_attempts chip adj cid c [0..<50] (calculate_optimal_position c) = None"
  shows "adjust_position_to_avoid_collision chip adj cid c = far_placement c \<and>
         map_option position (map_of (place_component chip adj (cid, c)) cid) =
           Some (far_placement c) \<and>
         (connected_pins c = [] \<longrightarrow> far_placement c = (10, 6)) \<and>
         (\<forall>pin rest. connected_pins c = pin # rest \<longrightarrow>
            (\<exists>s. side_of_name (fst (get_pin_position_on_chip pin)) = Some s \<and>
                 far_placement c = spec_far_anchor s (snd (get_pin_position_on_chip pin))))"
proof -
  have adj: "adjust_position_to_avoid_collision chip adj cid c = far_placement c"
    using assms by (simp add: adjust_position_to_avoid_collision_def max_attempts_def)
  have stored: "map_option position (map_of (place_component chip adj (cid, c)) cid) =
      Some (far_placement c)"
    by (simp add: place_component_def adj Let_def case_prod_beta update_conv')
  have none: "connected_pins c = [] \<longrightarrow> far_placement c = (10, 6)"
    by (simp add: far_placement_def)
  have some: "\<exists>s. side_of_name (fst (get_pin_position_on_chip pin)) = Some s \<and>
                 far_placement c = spec_far_anchor s (snd (get_pin_position_on_chip pin))"
    if "connected_pins c = pin # rest" for pin rest
    using that pin_side_known[of pin]
    by (auto simp: far_placement_def side_of_name_def spec_far_anchor_def case_prod_beta)
  from adj stored none some show ?thesis by blast
qed


text \<open>
  A resistor of side 100 on pin 2 (left, 0.5) overlaps the chip of width 4 at each of the
  50 candidates, and goes to \<open>(-10, 3/2)\<close>, where it still overlaps the chip.
\<close>

theorem fallback_accepts_far_placement_witness:
  "search_attempts wide_chip [] ''R9'' huge_resistor [0..<50]
     (calculate_optimal_position huge_resistor) = None \<and>
   adjust_position_to_avoid_collision wide_chip [] ''R9'' huge_resistor = (- 10, 3 / 2) \<and>
   has_collision wide_chip [] ''R9'' huge_resistor (- 10) (3 / 2)"
proof -
  have far: "far_placement huge_resistor = (- 10, 3 / 2)"
    by (simp add: far_placement_def huge_resistor_def get_pin_position_on_chip_def
        pin_configs_def)
  have "has_collision wide_chip [] ''R9'' huge_resistor (- 10) (3 / 2)"
    by (rule huge_resistor_collides) simp_all
  with fallback_accepts_far_placement[OF search_huge_resistor] search_huge_resistor far
  show ?thesis by simp
qed

subsection \<open>The achieved-ideal flag\<close>

text \<open>
  C9. The flag of a resolved component is true exactly when the Euclidean distance between
  its final position and the ideal position the estimator gives for it is strictly less
  than 0.5.
\<close>

theorem optimal_flag_iff_within_half_unit:
  "check_if_optimal_position c position_info =
     (dist (to_complex (position position_info))
           (to_complex (calculate_optimal_position c)) < 0.5)"
  by (simp add: check_if_optimal_position_def Let_def dist_complex_def cmod_def
      to_complex_def power2_commute)

text \<open>
  R1 placed at its ideal position has the flag; the ground symbol sent to \<open>(10, 6)\<close>, at
  distance 8 units and more from its ideal position \<open>(2, 2)\<close>, does not.
\<close>

theorem optimal_flag_iff_within_half_unit_witness:
  "check_if_optimal_position resistor_r1 (snd (hd two_layout)) \<and>
   \<not> check_if_optimal_position huge_ground (snd (hd far_layout))"
proof -
  have "check_if_optimal_position resistor_r1 (snd (hd two_layout))"
    unfolding optimal_flag_iff_within_half_unit optimal_r1
    by (simp add: two_layout_def)
  moreover have "\<not> check_if_optimal_position huge_ground (snd (hd far_layout))"
  proof -
    have "(1 / 2)\<^sup>2 \<le> (8::real)\<^sup>2 + 4\<^sup>2" by (simp add: power2_eq_square)
    then have "1 / 2 \<le> sqrt ((8::real)\<^sup>2 + 4\<^sup>2)"
      by (rule real_le_rsqrt)
    then show ?thesis
      unfolding optimal_flag_iff_within_half_unit optimal_huge_ground
      by (simp add: far_layout_def to_complex_def dist_complex_def cmod_def)
  qed
  ultimately show ?thesis by blast
qed

subsection \<open>Canvas and normalisation\<close>

text \<open>
  C7. The canvas is the bounding box of all corner coordinates of the chip's box and the
  components' boxes, widened by 2 on every side: its width and height are the spans plus 4,
  its origin is the left edge minus 2 and the top edge plus 2. An entity at \<open>(x, y)\<close> of size
  \<open>w\<close> by \<open>h\<close> is normalised to \<open>(x - origin_x) / canvas_w\<close>, \<open>(origin_y - y) / canvas_h\<close>,
  \<open>w / canvas_w\<close>, \<open>h / canvas_h\<close>, each clamped to the unit interval.
\<close>

theorem canvas_frame_and_normalization:
  "calculate_canvas_size chip layout =
     (Max (corner_xs chip layout) - Min (corner_xs chip layout) + 2 * 2,
      Max (corner_ys chip layout) - Min (corner_ys chip layout) + 2 * 2,
      Min (corner_xs chip layout) - 2,
      Max (corner_ys chip layout) + 2) \<and>
   convert_to_yolo_format x y w h cw ch ox oy =
     (clamp01 ((x - ox) / cw), clamp01 ((oy - y) / ch), clamp01 (w / cw), clamp01 (h / ch)) \<and>
   0 \<le> clamp01 v \<and> clamp01 v \<le> 1"
  by (simp add: calculate_canvas_size_def Let_def overall_bounding_box_corners
      convert_to_yolo_format_def clamp01_def max_def min_def)

text \<open>
  The layout of R1 and D1 around the small chip spans \<open>[-13/4, 13/4]\<close> by \<open>[-1/2, 1]\<close>; the
  canvas is 21/2 by 11/2 with origin \<open>(-21/4, 3)\<close>, and R1 is normalised to
  \<open>(3/14, 9/22, 1/21, 1/11)\<close>.
\<close>

theorem canvas_frame_and_normalization_witness:
  "calculate_canvas_size small_chip two_layout = (21 / 2, 11 / 2, - 21 / 4, 3) \<and>
   convert_to_yolo_format (- 3) (3 / 4) (1 / 2) (1 / 2) (21 / 2) (11 / 2) (- 21 / 4) 3 =
     (3 / 14, 9 / 22, 1 / 21, 1 / 11)"
proof -
  have xs: "corner_xs small_chip two_layout = {- 1 / 2, 1 / 2, - 13 / 4, - 11 / 4, 11 / 4, 13 / 4}"
    by (auto simp: corner_xs_def layout_boxes_def small_chip_def get_chip_info_def two_layout_def)
  have ys: "corner_ys small_chip two_layout = {- 1 / 2, 1 / 2, 1, - 1 / 4, 1 / 4}"
    by (auto simp: corner_ys_def layout_boxes_def small_chip_def get_chip_info_def two_layout_def)
  from canvas_frame_and_normalization
    [of small_chip two_layout "- 3" "3 / 4" "1 / 2" "1 / 2" "21 / 2" "11 / 2" "- 21 / 4" 3 0]
  show ?thesis
    unfolding xs ys by (simp add: clamp01_def)
qed

subsection \<open>The layout invariant\<close>

text \<open>
  C1. With distinct component ids and a run from the empty state, every component that the
  search placed (not the far placement) is clear of the chip with margin 2 and, with margin
  1 and in both directions, of every component placed before it; so when no component is
  placed by the far placement, the layout has no overlap at all. A far placement is stored
  unchecked, and the invariant does not hold for every input.
\<close>

theorem no_overlap_unless_far_placement:
  assumes "distinct (map fst component_info)"
  shows "(\<forall>j < length (detect_and_resolve_collisions chip component_info []).
            fst (detect_and_resolve_collisions chip component_info [] ! j)
              \<notin> placed_by_fallback chip component_info \<longrightarrow>
            clear_of_chip_and_earlier chip
              (detect_and_resolve_collisions chip component_info []) j) \<and>
         (placed_by_fallback chip component_info = {} \<longrightarrow>
            no_overlap_invariant chip (detect_and_resolve_collisions chip component_info []))"
proof -
  let ?L = "detect_and_resolve_collisions chip component_info []"
  have box: "bbox (snd (?L ! j)) = entry_bbox (snd (?L ! j))" if "j < length ?L" for j
    using resolve_entries(1)[OF assms that] .
  have clear: "clear_of_chip_and_earlier chip ?L j"
    if j: "j < length ?L" and nf: "fst (?L ! j) \<notin> placed_by_fallback chip component_info" for j
  proof -
    from resolve_entries(2)[OF assms j nf] have pf: "placed_free chip ?L j" .
    have "\<not> check_bbox_collision (bbox (snd (?L ! j))) (bbox (snd (?L ! i))) 1 \<and>
          \<not> check_bbox_collision (bbox (snd (?L ! i))) (bbox (snd (?L ! j))) 1"
      if "i < j" for i
    proof -
      from that j have "i < length ?L" by simp
      with pf that box[OF j] box[of i]
      have "\<not> check_bbox_collision (bbox (snd (?L ! j))) (bbox (snd (?L ! i))) 1"
        by (simp add: placed_free_def)
      then show ?thesis
        using check_bbox_collision_commute[of "bbox (snd (?L ! i))" "bbox (snd (?L ! j))" 1]
        by simp
    qed
    moreover from pf box[OF j] have "\<not> check_collision_with_chip chip (bbox (snd (?L ! j))) 2"
      by (simp add: placed_free_def)
    ultimately show ?thesis by (simp add: clear_of_chip_and_earlier_def)
  qed
  have inv: "no_overlap_invariant chip ?L" if none: "placed_by_fallback chip component_info = {}"
  proof -
    have all: "clear_of_chip_and_earlier chip ?L j" if "j < length ?L" for j
      using clear[OF that] none by simp
    have chip: "\<not> check_collision_with_chip chip (bbox (snd p)) 2" if "p \<in> set ?L" for p
    proof -
      from that obtain j where "j < length ?L" "?L ! j = p" by (auto simp: in_set_conv_nth)
      with all[of j] show ?thesis by (auto simp: clear_of_chip_and_earlier_def)
    qed
    have pair: "\<not> check_bbox_collision (bbox (snd p)) (bbox (snd q)) 1"
      if "p \<in> set ?L" "q \<in> set ?L" "fst p \<noteq> fst q" for p q
    proof -
      from that obtain a b where a: "a < length ?L" "?L ! a = p" and b: "b < length ?L" "?L ! b = q"
        by (auto simp: in_set_conv_nth)
      with that(3) have "a \<noteq> b" by auto
      then consider "a < b" | "b < a" by linarith
      then show ?thesis
      proof cases
        case 1
        with all[OF b(1)] a b show ?thesis by (auto simp: clear_of_chip_and_earlier_def)
      next
        case 2
        with all[OF a(1)] a b show ?thesis by (auto simp: clear_of_chip_and_earlier_def)
      qed
    qed
    from chip pair show ?thesis by (simp add: no_overlap_invariant_def)
  qed
  from clear inv show ?thesis by blast
qed

text \<open>
  R1 and D1 around the small chip are both placed at their ideal positions by the search,
  and the layout has no overlap.
\<close>

theorem no_overlap_unless_far_placement_witness:
  "distinct (map fst two_components) \<and>
   placed_by_fallback small_chip two_components = {} \<and>
   detect_and_resolve_collisions small_chip two_components [] = two_layout \<and>
   no_overlap_invariant small_chip two_layout \<and>
   clear_of_chip_and_earlier small_chip two_layout 1"
proof -
  have d: "distinct (map fst two_components)" by (simp add: two_components_def)
  from no_overlap_unless_far_placement[OF d, of small_chip]
  show ?thesis
    unfolding resolve_two fallback_two using d by (simp add: two_layout_def)
qed

text \<open>
  A ground symbol of side 100 without connected pins overlaps the chip of width 4 at all 50
  candidates around \<open>(2, 2)\<close>; it is sent to \<open>(10, 6)\<close>, where its box still covers the chip.
\<close>

theorem no_overlap_fails_after_far_placement:
  "\<not> no_overlap_invariant wide_chip
       (detect_and_resolve_collisions wide_chip [(''GND'', huge_ground)] [])"
  unfolding resolve_huge_ground
  by (simp add: no_overlap_invariant_def far_layout_def check_collision_with_chip_def
      check_bbox_collision_def wide_chip_def get_chip_info_def)

subsection \<open>Geometry is not validated\<close>

text \<open>
  C8. The resolver has no check of the geometry and no error result: for every chip and
  every list of components with distinct ids, whatever their widths and heights, the run
  from the empty state returns a layout with exactly one entry per component.
\<close>

theorem resolver_places_every_component:
  assumes "distinct (map fst component_info)"
  shows "mset (map fst (detect_and_resolve_collisions chip component_info [])) =
           mset (map fst component_info) \<and>
         length (detect_and_resolve_collisions chip component_info []) = length component_info"
proof -
  have keys: "map fst (detect_and_resolve_collisions chip component_info []) =
      map fst (sorted_components component_info)"
    by (rule resolve_keys[OF assms])
  have m: "mset (map fst (sorted_components component_info)) = mset (map fst component_info)"
    using arg_cong[OF sorted_components_mset, of "image_mset fst" component_info] by simp
  from arg_cong[OF keys, of length] arg_cong[OF m, of size]
  have "length (detect_and_resolve_collisions chip component_info []) = length component_info"
    by simp
  with keys m show ?thesis by simp
qed

text \<open>
  A resistor of width 0 and height \<open>-1\<close> is invalid geometry, and is placed like any other.
\<close>

theorem resolver_places_every_component_witness:
  "distinct (map fst [(''R0'', flat_resistor)]) \<and>
   invalid_geometry small_chip [(''R0'', flat_resistor)] \<and>
   map fst (detect_and_resolve_collisions small_chip [(''R0'', flat_resistor)] []) = [''R0'']"
proof -
  have d: "distinct (map fst [(''R0'', flat_resistor)])" by simp
  have i: "invalid_geometry small_chip [(''R0'', flat_resistor)]"
    by (simp add: invalid_geometry_def flat_resistor_def)
  from resolver_places_every_component[OF d, of small_chip] d i
  show ?thesis by (simp add: mset_single_iff_right flip: mset_map)
qed

text \<open>
  The run on that resistor returns its layout, with the degenerate box stored as it is.
\<close>

theorem invalid_geometry_is_not_rejected:
  "invalid_geometry small_chip [(''R0'', flat_resistor)] \<and>
   detect_and_resolve_collisions small_chip [(''R0'', flat_resistor)] [] = flat_layout \<and>
   flat_layout \<noteq> []"
  unfolding resolve_flat
  by (simp add: invalid_geometry_def flat_resistor_def flat_layout_def)

end
